theory Spec2Isabelle
  imports Complex_Main
begin

section \<open>Moviefy: the conversion page (src/app/page.tsx)\<close>

text \<open>
  The page is one React component, \<open>Home\<close>. Its state variables, the engine object held
  in \<open>ffmpegRef\<close> and the browser's table of object URLs are collected in one record;
  every handler of the component is a function from that record to the updated record.
  A handler runs from its call to the settling of its promise without another handler in
  between; what the \<open>await\<close>ed calls of the engine library do is a parameter. Writes to
  the console are left out. A character of a file name is a UTF-16 code unit below 256
  (U+0000 to U+00FF), which is what a \<open>char\<close> holds; a number is a real, and the one
  arithmetic operation of the page, the product at line 36, rounds to a double.
\<close>

subsection \<open>JavaScript string operations used by the page\<close>

text \<open>
  \<open>String.prototype.toLowerCase\<close>, code unit by code unit. Below 256 the letters with
  a lower case are A to Z (65 to 90) and the Latin-1 capitals U+00C0 to U+00DE (192 to
  222) without the multiplication sign U+00D7 (215); the lower case of each is the code
  unit 32 above it, and every other code unit stays.
\<close>

definition toLowerChar :: "char \<Rightarrow> char" where
  "toLowerChar c =
     (let n = (of_char c :: nat)
      in if (65 \<le> n \<and> n \<le> 90) \<or> (192 \<le> n \<and> n \<le> 222 \<and> n \<noteq> 215)
         then char_of (n + 32) else c)"

definition toLowerCase :: "string \<Rightarrow> string" where
  "toLowerCase s = map toLowerChar s"

text \<open>
  \<open>s.split(c)\<close> for a one-character separator: the pieces between the separators, in
  order; the result always has at least one piece (the empty string splits to one empty
  piece).
\<close>

fun split :: "string \<Rightarrow> char \<Rightarrow> string list" where
  "split [] c = [[]]"
| "split (x # xs) c =
     (if x = c then [] # split xs c
      else (x # hd (split xs c)) # tl (split xs c))"

text \<open>\<open>Array.prototype.pop\<close>: the last element, \<open>undefined\<close> on an empty array.\<close>

definition pop :: "'a list \<Rightarrow> 'a option" where
  "pop xs = (if xs = [] then None else Some (last xs))"

text \<open>\<open>s.lastIndexOf(c)\<close>: the index of the last occurrence of \<open>c\<close>, or \<open>-1\<close>.\<close>

fun lastIndexOf :: "string \<Rightarrow> char \<Rightarrow> int" where
  "lastIndexOf [] c = - 1"
| "lastIndexOf (x # xs) c =
     (let r = lastIndexOf xs c
      in if 0 \<le> r then r + 1 else if x = c then 0 else - 1)"

text \<open>
  \<open>s.substring(a, b)\<close>: both indices are clamped to \<open>[0, length]\<close>, swapped when
  \<open>a > b\<close>, and the characters from the smaller (inclusive) to the larger (exclusive)
  are returned.
\<close>

definition substring :: "string \<Rightarrow> int \<Rightarrow> int \<Rightarrow> string" where
  "substring s a b =
     (let n = int (length s);
          a' = max 0 (min a n);
          b' = max 0 (min b n);
          lo = min a' b';
          hi = max a' b'
      in take (nat (hi - lo)) (drop (nat lo) s))"

subsection \<open>File names of a conversion (lines 76 to 78)\<close>

text \<open>
  \<open>image.name.split('.').pop()?.toLowerCase() || 'png'\<close>: the optional chain gives
  \<open>undefined\<close> when \<open>pop\<close> does, and \<open>||\<close> replaces \<open>undefined\<close> and the empty
  string by \<open>'png'\<close>.
\<close>

definition inputExt :: "string \<Rightarrow> string" where
  "inputExt nm =
     (case map_option toLowerCase (pop (split nm (CHR ''.''))) of
        None \<Rightarrow> ''png''
      | Some e \<Rightarrow> if e = [] then ''png'' else e)"

definition inputPath :: "string \<Rightarrow> string" where
  "inputPath nm = ''input.'' @ inputExt nm"

definition outputPath :: string where
  "outputPath = ''output.mp4''"

subsection \<open>The command line (lines 89 to 102)\<close>

definition isGif :: "string \<Rightarrow> bool" where
  "isGif nm = (inputExt nm = ''gif'')"

definition args :: "string \<Rightarrow> string list" where
  "args nm =
     [''-y''] @
     (if isGif nm then [] else [''-f'', ''image2'']) @
     [''-loop'', ''1'',
      ''-i'', inputPath nm,
      ''-t'', ''1'',
      ''-c:v'', ''libx264'',
      ''-preset'', ''medium'',
      ''-crf'', ''18'',
      ''-pix_fmt'', ''yuv420p'',
      ''-vf'', ''scale='' @ [CHR 0x27] @ ''trunc(iw/2)*2:trunc(ih/2)*2'' @ [CHR 0x27],
      outputPath]"

subsection \<open>The download name (line 195)\<close>

record File =
  name :: string
  content :: "nat list"

text \<open>
  \<open>image ? (image.name.substring(0, image.name.lastIndexOf('.')) || image.name) + ".mp4"
  : "moviefy-video.mp4"\<close>
\<close>

definition download :: "File option \<Rightarrow> string" where
  "download img =
     (case img of
        Some f \<Rightarrow>
          (let b = substring (name f) 0 (lastIndexOf (name f) (CHR ''.''))
           in if b = [] then name f else b) @ ''.mp4''
      | None \<Rightarrow> ''moviefy-video.mp4'')"

subsection \<open>Values thrown, object URLs, the engine\<close>

text \<open>
  A thrown JavaScript value is either an \<open>Error\<close> object with its message, or any
  other value, kept as the string \<open>String(err)\<close> gives for it. Line 119:
  \<open>err instanceof Error ? err.message : String(err)\<close>.
\<close>

datatype thrown = ErrorObject string | OtherValue string

fun errMsg :: "thrown \<Rightarrow> string" where
  "errMsg (ErrorObject m) = m"
| "errMsg (OtherValue v) = v"

text \<open>
  The engine object of \<open>@ffmpeg/ffmpeg\<close> as the page sees it: its virtual filesystem,
  keyed by path, and the calls the page has made on it, oldest first.
\<close>

datatype engine_call =
  WriteFile string | Exec "string list" | ReadFile string | DeleteFile string

record FFmpeg =
  files :: "string \<rightharpoonup> nat list"
  calls :: "engine_call list"

text \<open>
  What one \<open>ffmpeg.exec\<close> does is not decided by the page: the progress fractions it
  emits before it settles, the filesystem it leaves, and whether the promise resolves
  (with the exit code) or rejects.
\<close>

record run_result =
  emitted :: "real list"
  files_after :: "string \<rightharpoonup> nat list"
  settled :: "thrown + int"

text \<open>
  What the page does not decide: \<open>fetchFile\<close> (the bytes of the chosen file, or a
  rejection), the behaviour of \<open>exec\<close>, and the value a filesystem call rejects with
  for a path that does not exist.
\<close>

record env =
  fetchFile :: "File \<Rightarrow> thrown + nat list"
  run :: "string list \<Rightarrow> (string \<rightharpoonup> nat list) \<Rightarrow> run_result"
  fs_error :: "string \<Rightarrow> thrown"

text \<open>
  The component: the seven state variables of lines 8 to 14, the ref of line 15, and the
  browser's object URLs (those created and not yet revoked, and the serial number of the
  next one; an object URL is identified by its serial number).
\<close>

record Home =
  loaded :: bool
  loading :: bool
  image_file :: "File option"
  previewUrl :: "nat option"
  videoUrl :: "nat option"
  error :: "string option"
  progress :: int
  ffmpegRef :: "FFmpeg option"
  objectURLs :: "nat set"
  nextURL :: nat

definition createObjectURL :: "Home \<Rightarrow> nat \<times> Home" where
  "createObjectURL s =
     (nextURL s, s\<lparr>objectURLs := insert (nextURL s) (objectURLs s), nextURL := Suc (nextURL s)\<rparr>)"

definition revokeObjectURL :: "nat \<Rightarrow> Home \<Rightarrow> Home" where
  "revokeObjectURL u s = s\<lparr>objectURLs := objectURLs s - {u}\<rparr>"

text \<open>\<open>if (url) URL.revokeObjectURL(url)\<close>, as lines 19, 57, 82 and 184 write it.\<close>

definition revokeIfSet :: "nat option \<Rightarrow> Home \<Rightarrow> Home" where
  "revokeIfSet url s = (case url of None \<Rightarrow> s | Some u \<Rightarrow> revokeObjectURL u s)"

text \<open>
  Modelled from the spec: the engine's private virtual filesystem (sections 4.1 and 6),
  which belongs to the \<open>@ffmpeg/ffmpeg\<close> library and not to the page. \<open>writeFile\<close>
  stores the bytes at the path; \<open>readFile\<close> and \<open>deleteFile\<close> reject for a path that
  is absent (the comment at line 115 expects that of \<open>deleteFile\<close>). Every call is
  logged on the engine.
\<close>

definition writeFile :: "string \<Rightarrow> nat list \<Rightarrow> FFmpeg \<Rightarrow> (thrown + unit) \<times> FFmpeg" where
  "writeFile p d e = (Inr (), e\<lparr>files := (files e)(p \<mapsto> d), calls := calls e @ [WriteFile p]\<rparr>)"

definition readFile :: "env \<Rightarrow> string \<Rightarrow> FFmpeg \<Rightarrow> (thrown + nat list) \<times> FFmpeg" where
  "readFile ev p e =
     (case files e p of None \<Rightarrow> Inl (fs_error ev p) | Some d \<Rightarrow> Inr d,
      e\<lparr>calls := calls e @ [ReadFile p]\<rparr>)"

definition deleteFile :: "env \<Rightarrow> string \<Rightarrow> FFmpeg \<Rightarrow> (thrown + unit) \<times> FFmpeg" where
  "deleteFile ev p e =
     (case files e p of
        None \<Rightarrow> (Inl (fs_error ev p), e\<lparr>calls := calls e @ [DeleteFile p]\<rparr>)
      | Some d \<Rightarrow> (Inr (), e\<lparr>files := (files e)(p := None), calls := calls e @ [DeleteFile p]\<rparr>))"

subsection \<open>The progress listener (lines 35 to 37)\<close>

text \<open>
  A JavaScript number is an IEEE 754 double: a finite one is \<open>m * 2 ^ e\<close> with an
  integer \<open>m\<close> of magnitude below \<open>2 ^ 53\<close> and \<open>e\<close> from \<open>-1074\<close> to \<open>971\<close>.
  Around a real \<open>x\<close> the doubles lie \<open>2 ^ e\<close> apart, where \<open>e\<close> is the greatest
  exponent of that range with \<open>2 ^ (e + 52) \<le> \<bar>x\<bar>\<close>, and \<open>-1074\<close> when there is none;
  \<open>ulp_scan\<close> looks for it from \<open>971\<close> downwards.
\<close>

fun ulp_scan :: "nat \<Rightarrow> int \<Rightarrow> real \<Rightarrow> int" where
  "ulp_scan 0 e x = e"
| "ulp_scan (Suc n) e x = (if 2 powi (e + 52) \<le> x then e else ulp_scan n (e - 1) x)"

definition ulp_exponent :: "real \<Rightarrow> int" where
  "ulp_exponent x = ulp_scan 2045 971 \<bar>x\<bar>"

text \<open>The nearest integer, a tie going to the even one.\<close>

definition roundTiesToEven :: "real \<Rightarrow> int" where
  "roundTiesToEven x =
     (let f = \<lfloor>x\<rfloor>; d = x - of_int f
      in if d < 1 / 2 then f else if 1 / 2 < d then f + 1 else if even f then f else f + 1)"

text \<open>
  The double nearest to a real, a tie going to the even mantissa. This is the rounding
  of every arithmetic operation of JavaScript, for results of magnitude below
  \<open>2 ^ 1024\<close> (beyond, JavaScript gives an infinity, which no real stands for).
  \<open>mul64\<close> is the operator \<open>*\<close> on two doubles.
\<close>

definition rd64 :: "real \<Rightarrow> real" where
  "rd64 x = of_int (roundTiesToEven (x / 2 powi ulp_exponent x)) * 2 powi ulp_exponent x"

definition mul64 :: "real \<Rightarrow> real \<Rightarrow> real" where
  "mul64 a b = rd64 (a * b)"

text \<open>\<open>Math.round\<close>: the nearest integer, a tie going up.\<close>

definition Math_round :: "real \<Rightarrow> int" where
  "Math_round x = \<lfloor>x + 1 / 2\<rfloor>"

text \<open>\<open>setProgress(Math.min(100, Math.round(progress * 100)))\<close>\<close>

definition onProgress :: "real \<Rightarrow> Home \<Rightarrow> Home" where
  "onProgress p s = s\<lparr>progress := min 100 (Math_round (mul64 p 100))\<rparr>"

text \<open>
  \<open>ffmpeg.exec(args)\<close>: the call is logged, the progress events of the run reach the
  listener in order, the filesystem is left as the run leaves it.
\<close>

definition exec :: "env \<Rightarrow> string list \<Rightarrow> FFmpeg \<Rightarrow> Home \<Rightarrow> (thrown + int) \<times> FFmpeg \<times> Home" where
  "exec ev a e s =
     (let r = run ev a (files e)
      in (settled r,
          e\<lparr>files := files_after r, calls := calls e @ [Exec a]\<rparr>,
          foldl (\<lambda>s' p. onProgress p s') s (emitted r)))"

subsection \<open>Loading the engine (lines 23 to 52)\<close>

text \<open>
  The effect creates the engine object when the ref is empty and awaits \<open>ffmpeg.load\<close>;
  \<open>ok\<close> says whether that promise (and the two \<open>toBlobURL\<close> fetches) resolved.
\<close>

definition load :: "bool \<Rightarrow> Home \<Rightarrow> Home" where
  "load ok s =
     (let s1 = (case ffmpegRef s of
                  None \<Rightarrow> s\<lparr>ffmpegRef := Some \<lparr>files = Map.empty, calls = []\<rparr>\<rparr>
                | Some e \<Rightarrow> s)
      in if ok then s1\<lparr>loaded := True\<rparr>
         else s1\<lparr>error := Some ''Failed to initialize conversion engine. Please refresh.''\<rparr>)"

subsection \<open>Choosing a file (lines 54 to 64)\<close>

text \<open>
  \<open>e.target.files?.[0]\<close>: \<open>undefined\<close> when the list is \<open>null\<close> or empty, else its
  first file.
\<close>

definition first_file :: "File list option \<Rightarrow> File option" where
  "first_file fl = (case fl of None \<Rightarrow> None | Some [] \<Rightarrow> None | Some (f # fs) \<Rightarrow> Some f)"

definition handleUpload :: "File list option \<Rightarrow> Home \<Rightarrow> Home" where
  "handleUpload fl s =
     (case first_file fl of
        None \<Rightarrow> s
      | Some file \<Rightarrow>
          (let s1 = revokeIfSet (previewUrl s) s;
               (url, s2) = createObjectURL s1
           in s2\<lparr>previewUrl := Some url, image_file := Some file,
                 videoUrl := None, error := None\<rparr>))"

subsection \<open>The conversion (lines 66 to 124)\<close>

text \<open>
  The inner \<open>try\<close> of lines 111 to 116: the second deletion is reached only when the
  first did not reject; a rejection of either is swallowed.
\<close>

definition cleanup :: "env \<Rightarrow> string \<Rightarrow> FFmpeg \<Rightarrow> FFmpeg" where
  "cleanup ev inPath e =
     (case deleteFile ev inPath e of
        (Inl err, e1) \<Rightarrow> e1
      | (Inr u, e1) \<Rightarrow> snd (deleteFile ev outputPath e1))"

text \<open>
  The body of the outer \<open>try\<close>, lines 81 to 116. The result is the value thrown, if
  any, with the engine and the component as they are at that point.
\<close>

definition try_body :: "env \<Rightarrow> File \<Rightarrow> FFmpeg \<Rightarrow> Home \<Rightarrow> thrown option \<times> FFmpeg \<times> Home" where
  "try_body ev img e s =
     (let s1 = revokeIfSet (videoUrl s) s
      in case fetchFile ev img of
           Inl err \<Rightarrow> (Some err, e, s1)
         | Inr fileData \<Rightarrow>
             (case writeFile (inputPath (name img)) fileData e of
                (Inl err, e1) \<Rightarrow> (Some err, e1, s1)
              | (Inr u, e1) \<Rightarrow>
                  (case exec ev (args (name img)) e1 s1 of
                     (Inl err, e2, s2) \<Rightarrow> (Some err, e2, s2)
                   | (Inr code, e2, s2) \<Rightarrow>
                       (case readFile ev outputPath e2 of
                          (Inl err, e3) \<Rightarrow> (Some err, e3, s2)
                        | (Inr data, e3) \<Rightarrow>
                            (let (url, s3) = createObjectURL s2;
                                 s4 = s3\<lparr>videoUrl := Some url\<rparr>
                             in (None, cleanup ev (inputPath (name img)) e3, s4))))))"

definition convertToVideo :: "env \<Rightarrow> Home \<Rightarrow> Home" where
  "convertToVideo ev s =
     (case image_file s of
        None \<Rightarrow> s
      | Some img \<Rightarrow>
          if \<not> loaded s then s
          else
            (let s1 = s\<lparr>loading := True, progress := 0, error := None\<rparr>
             in case ffmpegRef s1 of
                  None \<Rightarrow> s1
                | Some ffmpeg \<Rightarrow>
                    (let (res, e', s2) = try_body ev img ffmpeg s1;
                         s3 = (case res of
                                 None \<Rightarrow> s2
                               | Some err \<Rightarrow>
                                   s2\<lparr>error := Some (''Conversion failed ('' @ errMsg err @
                                     ''). Please try again with a different image.'')\<rparr>)
                     in s3\<lparr>loading := False, ffmpegRef := Some e'\<rparr>)))"

text \<open>
  The component while a conversion is suspended in \<open>await ffmpeg.exec(args)\<close> (line
  104): lines 67 to 85 have run, the render after the first \<open>await\<close> has shown
  \<open>loading\<close>, the input has been written and \<open>exec\<close> has been called but has not
  settled. There is no such state when the conversion returns or throws before line 104.
\<close>

definition pending_exec :: "env \<Rightarrow> Home \<Rightarrow> Home option" where
  "pending_exec ev s =
     (case image_file s of
        None \<Rightarrow> None
      | Some img \<Rightarrow>
          if \<not> loaded s then None
          else
            (let s1 = s\<lparr>loading := True, progress := 0, error := None\<rparr>
             in case ffmpegRef s1 of
                  None \<Rightarrow> None
                | Some ffmpeg \<Rightarrow>
                    (let s2 = revokeIfSet (videoUrl s) s1
                     in case fetchFile ev img of
                          Inl err \<Rightarrow> None
                        | Inr fileData \<Rightarrow>
                            (case writeFile (inputPath (name img)) fileData ffmpeg of
                               (Inl err, e1) \<Rightarrow> None
                             | (Inr u, e1) \<Rightarrow>
                                 Some (s2\<lparr>ffmpegRef :=
                                   Some (e1\<lparr>calls := calls e1 @ [Exec (args (name img))]\<rparr>)\<rparr>)))))"

subsection \<open>The buttons (lines 167 to 192) and the preview effect (lines 17 to 21)\<close>

text \<open>
  The primary button exists only while there is no output (\<open>!videoUrl\<close>) and carries
  \<open>disabled={!image || !loaded || loading}\<close>; a disabled button delivers no click.
\<close>

definition createVideo_disabled :: "Home \<Rightarrow> bool" where
  "createVideo_disabled s = (image_file s = None \<or> \<not> loaded s \<or> loading s)"

definition click_createVideo :: "env \<Rightarrow> Home \<Rightarrow> Home" where
  "click_createVideo ev s =
     (if videoUrl s = None \<and> \<not> createVideo_disabled s then convertToVideo ev s else s)"

text \<open>The handler of the New Project button, lines 183 to 188.\<close>

definition newProject :: "Home \<Rightarrow> Home" where
  "newProject s =
     (let s1 = revokeIfSet (previewUrl s) s
      in s1\<lparr>previewUrl := None, image_file := None, videoUrl := None\<rparr>)"

text \<open>
  The effect of lines 17 to 21 depends on \<open>previewUrl\<close>: when a render finds it changed,
  the cleanup of the previous render runs and revokes the previous preview URL.
  \<open>rerender old new\<close> is the component after the render that follows a handler which
  took it from \<open>old\<close> to \<open>new\<close>.
\<close>

definition rerender :: "Home \<Rightarrow> Home \<Rightarrow> Home" where
  "rerender old new =
     (if previewUrl new \<noteq> previewUrl old then revokeIfSet (previewUrl old) new else new)"

subsection \<open>Reading the engine through the ref\<close>

text \<open>
  The file at a path of the engine's virtual filesystem, and the calls made on the
  engine so far; there is neither while the ref is empty.
\<close>

definition engine_files :: "Home \<Rightarrow> string \<Rightarrow> nat list option" where
  "engine_files s p = (case ffmpegRef s of None \<Rightarrow> None | Some e \<Rightarrow> files e p)"

definition engine_calls :: "Home \<Rightarrow> engine_call list" where
  "engine_calls s = (case ffmpegRef s of None \<Rightarrow> [] | Some e \<Rightarrow> calls e)"

subsection \<open>The download name in the specification's words\<close>

text \<open>
  Section 6 of the specification derives the download name from "the source filename's
  base (stripped of its original extension)": all characters before the last dot.
  Reading the name from its end, everything up to and including the first dot met is
  dropped; a name without a dot has no such characters.
\<close>

definition base_before_last_dot :: "string \<Rightarrow> string" where
  "base_before_last_dot nm = rev (tl (dropWhile (\<lambda>c. c \<noteq> CHR ''.'') (rev nm)))"

subsection \<open>Lower case in the specification's words\<close>

text \<open>
  "Case-insensitive" and "lower-cased" are read off a table: each capital letter below
  U+0100 with, at the same position, its small letter. A character of the first row
  becomes the one below it, every other character stays.
\<close>

definition capitals :: string where
  "capitals = ''ABCDEFGHIJKLMNOPQRSTUVWXYZ'' @
     [CHR 0xC0, CHR 0xC1, CHR 0xC2, CHR 0xC3, CHR 0xC4, CHR 0xC5, CHR 0xC6, CHR 0xC7,
      CHR 0xC8, CHR 0xC9, CHR 0xCA, CHR 0xCB, CHR 0xCC, CHR 0xCD, CHR 0xCE, CHR 0xCF,
      CHR 0xD0, CHR 0xD1, CHR 0xD2, CHR 0xD3, CHR 0xD4, CHR 0xD5, CHR 0xD6,
      CHR 0xD8, CHR 0xD9, CHR 0xDA, CHR 0xDB, CHR 0xDC, CHR 0xDD, CHR 0xDE]"

definition smalls :: string where
  "smalls = ''abcdefghijklmnopqrstuvwxyz'' @
     [CHR 0xE0, CHR 0xE1, CHR 0xE2, CHR 0xE3, CHR 0xE4, CHR 0xE5, CHR 0xE6, CHR 0xE7,
      CHR 0xE8, CHR 0xE9, CHR 0xEA, CHR 0xEB, CHR 0xEC, CHR 0xED, CHR 0xEE, CHR 0xEF,
      CHR 0xF0, CHR 0xF1, CHR 0xF2, CHR 0xF3, CHR 0xF4, CHR 0xF5, CHR 0xF6,
      CHR 0xF8, CHR 0xF9, CHR 0xFA, CHR 0xFB, CHR 0xFC, CHR 0xFD, CHR 0xFE]"

definition small_of :: "char \<Rightarrow> char" where
  "small_of c = (case map_of (zip capitals smalls) c of Some l \<Rightarrow> l | None \<Rightarrow> c)"

subsection \<open>Scenarios\<close>

text \<open>
  The double nearest to 0.015, a progress fraction the engine can report: its mantissa
  is 8646911284551352 and its exponent is \<open>-59\<close>.
\<close>

definition near_0015 :: real where
  "near_0015 = 8646911284551352 / 2 ^ 59"

text \<open>The component as first rendered, before the engine has loaded.\<close>

definition mounted :: Home where
  "mounted =
     \<lparr>loaded = False, loading = False, image_file = None, previewUrl = None,
      videoUrl = None, error = None, progress = 0, ffmpegRef = None,
      objectURLs = {}, nextURL = 0\<rparr>"

definition photo :: File where
  "photo = \<lparr>name = ''photo.jpg'', content = [255, 216, 255, 224]\<rparr>"

text \<open>
  An engine that converts: \<open>exec\<close> reports half, then all, writes the output file and
  resolves with exit code 0.
\<close>

definition converting_env :: env where
  "converting_env =
     \<lparr>fetchFile = (\<lambda>f. Inr (content f)),
      run = (\<lambda>a fs.
        \<lparr>emitted = [1 / 2, 1],
         files_after = fs(outputPath \<mapsto> [0, 0, 0, 24]),
         settled = Inr 0\<rparr>),
      fs_error = (\<lambda>p. OtherValue ''ErrnoError: FS error'')\<rparr>"

text \<open>
  An engine whose \<open>exec\<close> reports three eighths and then rejects, leaving the filesystem
  as it found it.
\<close>

definition aborting_env :: env where
  "aborting_env =
     \<lparr>fetchFile = (\<lambda>f. Inr (content f)),
      run = (\<lambda>a fs.
        \<lparr>emitted = [3 / 8],
         files_after = fs,
         settled = Inl (ErrorObject ''Aborted()'')\<rparr>),
      fs_error = (\<lambda>p. OtherValue ''ErrnoError: FS error'')\<rparr>"

text \<open>
  An engine whose \<open>exec\<close> resolves with exit code 1 and writes no output, as ffmpeg
  does for an input it cannot decode.
\<close>

definition rejecting_env :: env where
  "rejecting_env =
     \<lparr>fetchFile = (\<lambda>f. Inr (content f)),
      run = (\<lambda>a fs. \<lparr>emitted = [], files_after = fs, settled = Inr 1\<rparr>),
      fs_error = (\<lambda>p. OtherValue ''ErrnoError: FS error'')\<rparr>"

text \<open>The engine has loaded and \<open>photo.jpg\<close> has been chosen.\<close>

definition ready :: Home where
  "ready = rerender (load True mounted) (handleUpload (Some [photo]) (load True mounted))"

text \<open>The same, after a conversion that succeeded: the Success screen.\<close>

definition succeeded :: Home where
  "succeeded = click_createVideo converting_env ready"

text \<open>
  The same as \<open>ready\<close>, while a first conversion is suspended inside \<open>exec\<close>: its
  \<open>setLoading(true)\<close> has been rendered and its input file has been written.
\<close>

definition in_flight :: Home where
  "in_flight =
     ready\<lparr>loading := True,
           ffmpegRef := Some \<lparr>files = [''input.jpg'' \<mapsto> content photo],
                               calls = [WriteFile ''input.jpg'', Exec (args ''photo.jpg'')]\<rparr>\<rparr>"

section \<open>Properties\<close>

subsection \<open>Lower case\<close>

text \<open>
  \<open>toLowerChar\<close> is the table: it takes every capital to the small letter at the same
  position and leaves every character that is not a capital alone.
\<close>

lemma capitals_codes: "capitals = map char_of ([65..<91] @ [192..<215] @ [216..<223::nat])"
  by code_simp

lemma toLowerChar_capitals: "map toLowerChar capitals = smalls"
  by code_simp

lemma length_capitals: "length capitals = length smalls"
  by (simp add: capitals_def smalls_def)

lemma distinct_capitals: "distinct capitals"
  by code_simp

lemma toLowerChar_other: "c \<notin> set capitals \<Longrightarrow> toLowerChar c = c"
proof (rule ccontr)
  assume out: "c \<notin> set capitals" and ne: "toLowerChar c \<noteq> c"
  let ?n = "of_char c :: nat"
  from ne have "(65 \<le> ?n \<and> ?n \<le> 90) \<or> (192 \<le> ?n \<and> ?n \<le> 222 \<and> ?n \<noteq> 215)"
    by (auto simp: toLowerChar_def Let_def split: if_splits)
  then have "?n \<in> {65..<91} \<union> {192..<215} \<union> {216..<223}" by auto
  then have "?n \<in> set ([65..<91] @ [192..<215] @ [216..<223])"
    by (simp only: set_append set_upt Un_assoc)
  then have "char_of ?n \<in> set capitals"
    unfolding capitals_codes by (simp only: set_map image_eqI)
  with out show False by simp
qed

lemma toLowerChar_small_of: "toLowerChar c = small_of c"
proof (cases "c \<in> set capitals")
  case False
  have "fst ` set (zip capitals smalls) = set (map fst (zip capitals smalls))"
    by (simp only: set_map)
  also have "\<dots> = set capitals"
    by (simp only: map_fst_zip [OF length_capitals])
  finally have "map_of (zip capitals smalls) c = None"
    using False by (simp only: map_of_eq_None_iff not_False_eq_True)
  with False show ?thesis by (simp add: small_of_def toLowerChar_other)
next
  case True
  then obtain i where i: "i < length capitals" "capitals ! i = c"
    by (auto simp: in_set_conv_nth)
  have "map_of (zip capitals smalls) (capitals ! i) = Some (smalls ! i)"
  proof (rule map_of_zip_nth)
    show "length capitals = length smalls" by (rule length_capitals)
    show "distinct capitals" by (rule distinct_capitals)
    show "i < length smalls" using i(1) length_capitals by (simp only:)
  qed
  moreover have "toLowerChar (capitals ! i) = smalls ! i"
    using i(1) toLowerChar_capitals nth_map [of i capitals toLowerChar] by simp
  ultimately show ?thesis using i(2) by (simp add: small_of_def)
qed

lemma toLowerCase_small_of: "toLowerCase e = map small_of e"
  by (simp add: toLowerCase_def toLowerChar_small_of)

subsection \<open>Splitting a name at its last dot\<close>

lemma split_not_Nil: "split s c \<noteq> []"
  by (induction s) auto

lemma split_no_sep: "c \<notin> set e \<Longrightarrow> split e c = [e]"
  by (induction e) auto

lemma split_append: "split (b @ c # r) c = split b c @ split r c"
  by (induction b) (auto simp: split_not_Nil)

lemma pop_split: "c \<notin> set e \<Longrightarrow> pop (split (b @ c # e) c) = Some e"
  by (simp add: pop_def split_not_Nil split_append split_no_sep)

lemma lastIndexOf_none: "c \<notin> set e \<Longrightarrow> lastIndexOf e c = - 1"
  by (induction e) (auto simp: Let_def)

lemma lastIndexOf_append: "c \<notin> set e \<Longrightarrow> lastIndexOf (b @ c # e) c = int (length b)"
  by (induction b) (auto simp: Let_def lastIndexOf_none)

lemma substring_prefix: "substring (b @ r) 0 (int (length b)) = b"
  by (simp add: substring_def Let_def)

lemma substring_neg: "substring s 0 (- 1) = []"
  by (simp add: substring_def Let_def)

lemma base_append:
  assumes "CHR ''.'' \<notin> set e"
  shows "base_before_last_dot (b @ CHR ''.'' # e) = b"
proof -
  have "dropWhile (\<lambda>c. c \<noteq> CHR ''.'') (rev e @ CHR ''.'' # rev b) =
        dropWhile (\<lambda>c. c \<noteq> CHR ''.'') (CHR ''.'' # rev b)"
    using assms by (intro dropWhile_append2) auto
  then show ?thesis by (simp add: base_before_last_dot_def)
qed

lemma base_none: "CHR ''.'' \<notin> set nm \<Longrightarrow> base_before_last_dot nm = []"
  unfolding base_before_last_dot_def
  by (subst dropWhile_eq_Nil_conv [THEN iffD2]) auto

lemma last_dot_cases:
  obtains (nodot) "CHR ''.'' \<notin> set nm"
  | (dot) b e where "nm = b @ CHR ''.'' # e" "CHR ''.'' \<notin> set e"
proof (cases "CHR ''.'' \<in> set nm")
  case False
  then show ?thesis by (rule nodot)
next
  case True
  then obtain b e where "nm = b @ CHR ''.'' # e" "CHR ''.'' \<notin> set e"
    by (auto dest: split_list_last)
  then show ?thesis by (rule dot)
qed

lemma inputExt_dotted:
  "CHR ''.'' \<notin> set e \<Longrightarrow>
   inputExt (b @ ''.'' @ e) = (if e = [] then ''png'' else toLowerCase e)"
  by (simp add: inputExt_def pop_split toLowerCase_def)

lemma inputExt_nodot:
  "CHR ''.'' \<notin> set nm \<Longrightarrow> inputExt nm = (if nm = [] then ''png'' else toLowerCase nm)"
  by (simp add: inputExt_def pop_def split_no_sep toLowerCase_def)

subsection \<open>The command line\<close>

text \<open>
  The argument list in terms of the extension that line 76 derives: \<open>-y\<close>, then the
  single-image hint \<open>-f image2\<close> unless that extension is \<open>gif\<close>, then the fixed
  tokens in the order of the source: one looped frame, the input path, a limit of one
  second, libx264 with preset medium and CRF 18, yuv420p, the scale filter that truncates
  both sides to even numbers, and the output path. For a name with a dot the extension
  is the text after the last dot in lower case, so the hint is left out exactly for
  \<open>gif\<close> in any mix of cases.
\<close>

lemma args_shape:
  "args nm =
     ''-y'' # (if inputExt nm = ''gif'' then [] else [''-f'', ''image2'']) @
     [''-loop'', ''1'', ''-i'', inputPath nm, ''-t'', ''1'',
      ''-c:v'', ''libx264'', ''-preset'', ''medium'', ''-crf'', ''18'',
      ''-pix_fmt'', ''yuv420p'',
      ''-vf'', ''scale='' @ [CHR 0x27] @ ''trunc(iw/2)*2:trunc(ih/2)*2'' @ [CHR 0x27],
      ''output.mp4'']
   \<and> hd (args nm) = ''-y''
   \<and> last (args nm) = ''output.mp4''
   \<and> (''-f'' \<in> set (args nm)) = (inputExt nm \<noteq> ''gif'')
   \<and> (\<forall>b e. nm = b @ ''.'' @ e \<and> CHR ''.'' \<notin> set e \<longrightarrow>
         (''-f'' \<in> set (args nm)) = (map small_of e \<noteq> ''gif''))"
proof -
  have shape: "args nm =
     ''-y'' # (if inputExt nm = ''gif'' then [] else [''-f'', ''image2'']) @
     [''-loop'', ''1'', ''-i'', inputPath nm, ''-t'', ''1'',
      ''-c:v'', ''libx264'', ''-preset'', ''medium'', ''-crf'', ''18'',
      ''-pix_fmt'', ''yuv420p'',
      ''-vf'', ''scale='' @ [CHR 0x27] @ ''trunc(iw/2)*2:trunc(ih/2)*2'' @ [CHR 0x27],
      ''output.mp4'']"
    by (simp add: args_def isGif_def outputPath_def)
  have first: "hd (args nm) = ''-y''"
    by (simp add: args_def)
  have final: "last (args nm) = ''output.mp4''"
    by (simp add: args_def outputPath_def)
  have hint: "(''-f'' \<in> set (args nm)) = (inputExt nm \<noteq> ''gif'')"
    by (simp add: args_def isGif_def outputPath_def inputPath_def)
  have ci: "\<forall>b e. nm = b @ ''.'' @ e \<and> CHR ''.'' \<notin> set e \<longrightarrow>
         (''-f'' \<in> set (args nm)) = (map small_of e \<noteq> ''gif'')"
  proof (intro allI impI)
    fix b e
    assume d: "nm = b @ ''.'' @ e \<and> CHR ''.'' \<notin> set e"
    have "inputExt nm = (if e = [] then ''png'' else map small_of e)"
      using d inputExt_dotted [of e b] by (simp add: toLowerCase_small_of)
    then have "(inputExt nm = ''gif'') = (map small_of e = ''gif'')"
      by auto
    with hint show "(''-f'' \<in> set (args nm)) = (map small_of e \<noteq> ''gif'')"
      by simp
  qed
  show ?thesis
    by (intro conjI shape first final hint ci)
qed

lemma args_shape_example:
  "''anim.GIF'' = ''anim'' @ ''.'' @ ''GIF'' \<and> CHR ''.'' \<notin> set ''GIF''
   \<and> ''-f'' \<notin> set (args ''anim.GIF'')
   \<and> ''still.PNG'' = ''still'' @ ''.'' @ ''PNG'' \<and> CHR ''.'' \<notin> set ''PNG''
   \<and> ''-f'' \<in> set (args ''still.PNG'')"
proof -
  have g: "map small_of ''GIF'' = ''gif''" by code_simp
  have p: "map small_of ''PNG'' = ''png''" by code_simp
  note gif = args_shape [of "''anim.GIF''", THEN conjunct2, THEN conjunct2, THEN conjunct2,
      THEN conjunct2, rule_format, of "''anim''" "''GIF''"]
  note png = args_shape [of "''still.PNG''", THEN conjunct2, THEN conjunct2, THEN conjunct2,
      THEN conjunct2, rule_format, of "''still''" "''PNG''"]
  have "''-f'' \<notin> set (args ''anim.GIF'')"
    using gif g by simp
  moreover have "''-f'' \<in> set (args ''still.PNG'')"
    using png p by simp
  ultimately show ?thesis by simp
qed

text \<open>
  C4. The claim asks for the hint \<open>-f image2\<close> on every source whose extension is not
  \<open>gif\<close>. A source named \<open>GIF\<close>, without a dot, has no extension; line 76 takes
  its whole name for the extension, so the input path is \<open>input.gif\<close> and neither
  token of the hint is in the argument list.
\<close>

theorem hint_omitted_without_extension:
  "CHR ''.'' \<notin> set ''GIF''
   \<and> inputPath ''GIF'' = ''input.gif''
   \<and> ''-f'' \<notin> set (args ''GIF'')
   \<and> ''image2'' \<notin> set (args ''GIF'')"
  by code_simp

subsection \<open>The file names of a conversion\<close>

text \<open>
  C7, as the code has it. For every source name that contains a dot, the input path is
  \<open>input.\<close> followed by the text after the last dot with every capital replaced by
  its small letter, whatever that text is (the code has no list of recognised
  extensions), and \<open>input.png\<close> when nothing follows the last dot; the output path is
  always \<open>output.mp4\<close>.
\<close>

theorem inputPath_dotted:
  "CHR ''.'' \<notin> set e \<Longrightarrow>
   inputPath (b @ ''.'' @ e) = ''input.'' @ (if e = [] then ''png'' else map small_of e)
   \<and> outputPath = ''output.mp4''"
  using inputExt_dotted [of e b]
  by (simp add: inputPath_def outputPath_def toLowerCase_small_of)

theorem inputPath_dotted_witness:
  "CHR ''.'' \<notin> set ''JPG'' \<and> inputPath ''photo.JPG'' = ''input.jpg''
   \<and> CHR ''.'' \<notin> set [CHR ''J'', CHR ''P'', CHR 0xC9, CHR ''G'']
   \<and> inputPath (''foto.'' @ [CHR ''J'', CHR ''P'', CHR 0xC9, CHR ''G'']) =
       ''input.'' @ [CHR ''j'', CHR ''p'', CHR 0xE9, CHR ''g'']
   \<and> CHR ''.'' \<notin> set [] \<and> inputPath ''photo.'' = ''input.png''
   \<and> outputPath = ''output.mp4''"
proof -
  have j: "map small_of ''JPG'' = ''jpg''" by code_simp
  have l: "map small_of [CHR ''J'', CHR ''P'', CHR 0xC9, CHR ''G''] =
             [CHR ''j'', CHR ''p'', CHR 0xE9, CHR ''g'']" by code_simp
  have "inputPath ''photo.JPG'' = ''input.jpg''"
    using inputPath_dotted [of "''JPG''" "''photo''"] j by simp
  moreover have "inputPath (''foto.'' @ [CHR ''J'', CHR ''P'', CHR 0xC9, CHR ''G'']) =
       ''input.'' @ [CHR ''j'', CHR ''p'', CHR 0xE9, CHR ''g'']"
    using inputPath_dotted [of "[CHR ''J'', CHR ''P'', CHR 0xC9, CHR ''G'']" "''foto''"] l
    by simp
  moreover have "inputPath ''photo.'' = ''input.png'' \<and> outputPath = ''output.mp4''"
    using inputPath_dotted [of "[]" "''photo''"] by simp
  ultimately show ?thesis by simp
qed

text \<open>
  C7 as stated fails: a name without an extension does not get \<open>png\<close>, and neither does
  a name whose extension is not that of an image.
\<close>

theorem inputPath_default_counterexample:
  "inputPath ''photo'' = ''input.photo'' \<and> inputPath ''notes.txt'' = ''input.txt''"
  by code_simp

subsection \<open>The download name\<close>

text \<open>
  C9, as the code has it. The download name is the characters before the last dot of
  the source name followed by \<open>.mp4\<close> when there is at least one such character;
  otherwise (no dot, or the only dot is the first character) it is the whole source
  name followed by \<open>.mp4\<close>.
\<close>

theorem download_name:
  "download (Some f) =
     (if base_before_last_dot (name f) = [] then name f else base_before_last_dot (name f))
     @ ''.mp4''"
proof (cases "name f" rule: last_dot_cases)
  case nodot
  then show ?thesis
    by (simp add: download_def lastIndexOf_none substring_neg base_none)
next
  case (dot b e)
  then show ?thesis
    by (simp add: download_def lastIndexOf_append substring_prefix base_append)
qed

theorem download_name_witness:
  "base_before_last_dot ''photo.jpg'' = ''photo''
   \<and> download (Some \<lparr>name = ''photo.jpg'', content = []\<rparr>) = ''photo.mp4''"
  using download_name [of "\<lparr>name = ''photo.jpg'', content = []\<rparr>"]
  by (simp add: base_before_last_dot_def)

text \<open>
  C9 as stated fails for a name whose only dot is its first character: nothing stands
  before the dot, and the code falls back to the whole name.
\<close>

theorem download_name_counterexample:
  "base_before_last_dot ''.png'' = []
   \<and> download (Some \<lparr>name = ''.png'', content = []\<rparr>) = ''.png.mp4''"
  by (simp add: base_before_last_dot_def download_def substring_def Let_def)

subsection \<open>Progress\<close>

text \<open>
  Rounding to a double keeps the sign, never passes 100, which is a double, and moves
  a real by at most half the distance between the doubles around it.
\<close>

lemma roundTiesToEven_of_int: "roundTiesToEven (of_int n) = n"
  by (simp add: roundTiesToEven_def)

lemma roundTiesToEven_range:
  "\<lfloor>x\<rfloor> \<le> roundTiesToEven x \<and> roundTiesToEven x \<le> \<lfloor>x\<rfloor> + 1"
  by (simp add: roundTiesToEven_def Let_def)

lemma roundTiesToEven_mono:
  assumes "x \<le> y"
  shows "roundTiesToEven x \<le> roundTiesToEven y"
proof (cases "\<lfloor>x\<rfloor> = \<lfloor>y\<rfloor>")
  case False
  with assms have "\<lfloor>x\<rfloor> < \<lfloor>y\<rfloor>"
    using floor_mono [of x y] by linarith
  then show ?thesis
    using roundTiesToEven_range [of x] roundTiesToEven_range [of y] by linarith
next
  case True
  with assms show ?thesis
    by (auto simp: roundTiesToEven_def Let_def)
qed

lemma ulp_scan_le: "ulp_scan n e x \<le> e"
proof (induction n arbitrary: e)
  case 0
  then show ?case by simp
next
  case (Suc n)
  from Suc [of "e - 1"] show ?case by auto
qed

lemma ulp_scan_ge: "e - int n \<le> ulp_scan n e x"
proof (induction n arbitrary: e)
  case 0
  then show ?case by simp
next
  case (Suc n)
  from Suc [of "e - 1"] show ?case by auto
qed

lemma ulp_scan_above: "ulp_scan n e x < k \<Longrightarrow> k \<le> e \<Longrightarrow> x < 2 powi (k + 52)"
proof (induction n arbitrary: e)
  case 0
  then show ?case by simp
next
  case (Suc n)
  show ?case
  proof (cases "2 powi (e + 52) \<le> x")
    case True
    with Suc.prems show ?thesis by simp
  next
    case False
    show ?thesis
    proof (cases "k = e")
      case True
      with False show ?thesis by simp
    next
      case ne: False
      with Suc.prems False have "ulp_scan n (e - 1) x < k" "k \<le> e - 1" by auto
      then show ?thesis by (rule Suc.IH)
    qed
  qed
qed

lemma ulp_scan_stop: "e - int n < ulp_scan n e x \<Longrightarrow> 2 powi (ulp_scan n e x + 52) \<le> x"
proof (induction n arbitrary: e)
  case 0
  then show ?case by simp
next
  case (Suc n)
  show ?case
  proof (cases "2 powi (e + 52) \<le> x")
    case True
    then show ?thesis by simp
  next
    case False
    with Suc.prems have "(e - 1) - int n < ulp_scan n (e - 1) x" by simp
    from Suc.IH [OF this] False show ?thesis by simp
  qed
qed

lemma ulp_scan_mono: "x \<le> y \<Longrightarrow> ulp_scan n e x \<le> ulp_scan n e y"
proof (induction n arbitrary: e)
  case 0
  then show ?case by simp
next
  case (Suc n)
  from Suc.IH [OF Suc.prems, of "e - 1"] Suc.prems ulp_scan_le [of n "e - 1" x]
  show ?case by auto
qed

lemma ulp_scan_eval:
  assumes "e - int n \<le> e'" and "e' \<le> e" and "2 powi (e' + 52) \<le> x" and "x < 2 powi (e' + 53)"
  shows "ulp_scan n e x = e'"
proof -
  have "\<not> ulp_scan n e x < e'"
  proof
    assume l: "ulp_scan n e x < e'"
    from ulp_scan_above [OF l assms(2)] assms(3) show False by simp
  qed
  moreover have "\<not> e' < ulp_scan n e x"
  proof
    assume g: "e' < ulp_scan n e x"
    with assms(1) have "e - int n < ulp_scan n e x" by simp
    from ulp_scan_stop [OF this] have "2 powi (ulp_scan n e x + 52) \<le> x" .
    moreover have "(2::real) powi (e' + 53) \<le> 2 powi (ulp_scan n e x + 52)"
      using g by (intro power_int_increasing) auto
    ultimately show False using assms(4) by simp
  qed
  ultimately show ?thesis by simp
qed

lemma ulp_exponent_eval:
  assumes "- 1074 \<le> e" and "e \<le> 971" and "2 powi (e + 52) \<le> \<bar>x\<bar>" and "\<bar>x\<bar> < 2 powi (e + 53)"
  shows "ulp_exponent x = e"
  unfolding ulp_exponent_def using assms by (intro ulp_scan_eval) simp_all

lemma rd64_eval:
  assumes "- 1074 \<le> e" and "e \<le> 971" and "2 powi (e + 52) \<le> \<bar>x\<bar>" and "\<bar>x\<bar> < 2 powi (e + 53)"
  shows "rd64 x = of_int (roundTiesToEven (x / 2 powi e)) * 2 powi e"
  by (simp add: rd64_def ulp_exponent_eval [OF assms])

lemma rd64_0: "rd64 0 = 0"
  by (simp add: rd64_def roundTiesToEven_def)

lemma rd64_100: "rd64 100 = 100"
  by (subst rd64_eval [where e = "- 46"]) (simp_all add: roundTiesToEven_def)

lemma rd64_50: "rd64 50 = 50"
  by (subst rd64_eval [where e = "- 47"]) (simp_all add: roundTiesToEven_def)

lemma rd64_75_2: "rd64 (75 / 2) = 75 / 2"
  by (subst rd64_eval [where e = "- 47"]) (simp_all add: roundTiesToEven_def)

lemma roundTiesToEven_nonneg: "0 \<le> x \<Longrightarrow> 0 \<le> roundTiesToEven x"
  using roundTiesToEven_mono [of 0 x] by (simp add: roundTiesToEven_def)

lemma roundTiesToEven_nonpos: "x \<le> 0 \<Longrightarrow> roundTiesToEven x \<le> 0"
  using roundTiesToEven_mono [of x 0] by (simp add: roundTiesToEven_def)

lemma roundTiesToEven_le_int: "x \<le> of_int n \<Longrightarrow> roundTiesToEven x \<le> n"
  using roundTiesToEven_mono [of x "of_int n"] by (simp add: roundTiesToEven_of_int)

lemma rd64_nonneg:
  assumes "0 \<le> x"
  shows "0 \<le> rd64 x"
proof -
  have "0 \<le> x / 2 powi ulp_exponent x" using assms by simp
  then have "0 \<le> roundTiesToEven (x / 2 powi ulp_exponent x)"
    by (rule roundTiesToEven_nonneg)
  then show ?thesis by (simp add: rd64_def)
qed

lemma ulp_exponent_100: "ulp_exponent 100 = - 46"
  by (rule ulp_exponent_eval) simp_all

lemma rd64_le_100:
  assumes "x \<le> 100"
  shows "rd64 x \<le> 100"
proof (cases "x \<le> 0")
  case True
  then have "x / 2 powi ulp_exponent x \<le> 0"
    by (simp add: divide_nonpos_pos)
  then have "roundTiesToEven (x / 2 powi ulp_exponent x) \<le> 0"
    by (rule roundTiesToEven_nonpos)
  then have "rd64 x \<le> 0"
    by (simp add: rd64_def mult_nonpos_nonneg)
  then show ?thesis by simp
next
  case False
  then have pos: "0 < x" by simp
  let ?e = "ulp_exponent x"
  have le: "?e \<le> - 46"
    using assms pos ulp_scan_mono [of "\<bar>x\<bar>" "\<bar>100\<bar>" 2045 971] ulp_exponent_100
    by (simp add: ulp_exponent_def)
  show ?thesis
  proof (cases "?e = - 46")
    case True
    have "x / 2 powi (- 46) \<le> of_int (100 * 2 ^ 46)"
      using assms by (simp add: power_int_minus field_simps)
    then have "roundTiesToEven (x / 2 powi (- 46)) \<le> 100 * 2 ^ 46"
      by (rule roundTiesToEven_le_int)
    then have "of_int (roundTiesToEven (x / 2 powi (- 46))) \<le> (of_int (100 * 2 ^ 46) :: real)"
      by (simp only: of_int_le_iff)
    then have "of_int (roundTiesToEven (x / 2 powi (- 46))) * 2 powi (- 46)
                 \<le> (of_int (100 * 2 ^ 46) :: real) * 2 powi (- 46)"
      by (intro mult_right_mono) simp_all
    also have "(of_int (100 * 2 ^ 46) :: real) * 2 powi (- 46) = 100"
      by (simp add: power_int_minus)
    finally show ?thesis by (simp add: rd64_def True)
  next
    case False
    with le have lt: "?e < - 46" by simp
    have "ulp_scan 2045 971 \<bar>x\<bar> < ?e + 1" by (simp add: ulp_exponent_def)
    moreover have "?e + 1 \<le> 971" using lt by simp
    ultimately have "\<bar>x\<bar> < 2 powi (?e + 1 + 52)" by (rule ulp_scan_above)
    then have "x < 2 powi (?e + 53)" using pos by (simp add: add.commute add.left_commute)
    then have "x / 2 powi ?e < 2 powi (?e + 53) / 2 powi ?e"
      by (intro divide_strict_right_mono) simp_all
    also have "(2::real) powi (?e + 53) / 2 powi ?e = of_int (2 ^ 53)"
      by (simp add: power_int_add)
    finally have "roundTiesToEven (x / 2 powi ?e) \<le> 2 ^ 53"
      by (intro roundTiesToEven_le_int) simp
    then have "of_int (roundTiesToEven (x / 2 powi ?e)) \<le> (of_int (2 ^ 53) :: real)"
      by (simp only: of_int_le_iff)
    then have "rd64 x \<le> of_int (2 ^ 53) * 2 powi ?e"
      unfolding rd64_def by (intro mult_right_mono) simp_all
    also have "(of_int (2 ^ 53) :: real) * 2 powi ?e = 2 powi (?e + 53)"
      by (simp add: power_int_add)
    also have "\<dots> \<le> 2 powi 6"
      using lt by (intro power_int_increasing) simp_all
    also have "(2::real) powi 6 \<le> 100" by simp
    finally show ?thesis .
  qed
qed

lemma near_0015_is_double: "rd64 (15 / 1000) = near_0015 \<and> rd64 near_0015 = near_0015"
proof
  show "rd64 (15 / 1000) = near_0015"
    by (subst rd64_eval [where e = "- 59"])
       (simp_all add: roundTiesToEven_def near_0015_def power_int_minus)
  show "rd64 near_0015 = near_0015"
    by (subst rd64_eval [where e = "- 59"])
       (simp_all add: roundTiesToEven_def near_0015_def power_int_minus)
qed

lemma mul64_near_0015: "mul64 near_0015 100 = 3 / 2"
  unfolding mul64_def
  by (subst rd64_eval [where e = "- 52"])
     (simp_all add: roundTiesToEven_def near_0015_def power_int_minus)

text \<open>
  A product that lies halfway between two doubles: \<open>1/2 + 1/2 ^ 50\<close> is a double, its
  exact product with 100 is \<open>50 + 12.5 / 2 ^ 47\<close>, and the doubles around 50 are
  \<open>1 / 2 ^ 47\<close> apart; the even mantissa is taken.
\<close>

lemma mul64_tie: "mul64 (1 / 2 + 1 / 2 ^ 50) 100 = 50 + 12 / 2 ^ 47"
  unfolding mul64_def
  by (subst rd64_eval [where e = "- 47"])
     (simp_all add: roundTiesToEven_def power_int_minus)

lemma roundTiesToEven_error: "\<bar>real_of_int (roundTiesToEven y) - y\<bar> \<le> 1 / 2"
proof -
  have lo: "real_of_int \<lfloor>y\<rfloor> \<le> y" and hi: "y < real_of_int \<lfloor>y\<rfloor> + 1"
    by linarith+
  consider (down) "roundTiesToEven y = \<lfloor>y\<rfloor>" "y - real_of_int \<lfloor>y\<rfloor> \<le> 1 / 2"
    | (up) "roundTiesToEven y = \<lfloor>y\<rfloor> + 1" "1 / 2 \<le> y - real_of_int \<lfloor>y\<rfloor>"
    by (cases "y - real_of_int \<lfloor>y\<rfloor> < 1 / 2"; cases "1 / 2 < y - real_of_int \<lfloor>y\<rfloor>";
        cases "even \<lfloor>y\<rfloor>")
       (simp_all add: roundTiesToEven_def Let_def)
  then show ?thesis
  proof cases
    case down
    with lo show ?thesis by simp
  next
    case up
    with hi show ?thesis by simp
  qed
qed

lemma ulp_exponent_le:
  assumes "\<bar>x\<bar> \<le> 100"
  shows "ulp_exponent x \<le> - 46"
  using assms ulp_scan_mono [of "\<bar>x\<bar>" "\<bar>100\<bar>" 2045 971] ulp_exponent_100
  by (simp add: ulp_exponent_def)

lemma rd64_error: "\<bar>rd64 x - x\<bar> \<le> 2 powi ulp_exponent x / 2"
proof -
  let ?u = "(2::real) powi ulp_exponent x"
  have u: "0 < ?u" by simp
  have "rd64 x - x = (real_of_int (roundTiesToEven (x / ?u)) - x / ?u) * ?u"
    using u by (simp add: rd64_def field_simps)
  then have "\<bar>rd64 x - x\<bar> = \<bar>real_of_int (roundTiesToEven (x / ?u)) - x / ?u\<bar> * ?u"
    using u by (simp add: abs_mult)
  also have "\<dots> \<le> 1 / 2 * ?u"
    using roundTiesToEven_error [of "x / ?u"] u by (intro mult_right_mono) simp_all
  finally show ?thesis by simp
qed

lemma mul64_error:
  assumes "0 \<le> p" and "p \<le> 1"
  shows "\<bar>mul64 p 100 - p * 100\<bar> \<le> 1 / 2 ^ 47"
proof -
  have "\<bar>p * 100\<bar> \<le> 100" using assms by (simp add: abs_if)
  then have "ulp_exponent (p * 100) \<le> - 46" by (rule ulp_exponent_le)
  then have "(2::real) powi ulp_exponent (p * 100) \<le> 2 powi (- 46)"
    by (intro power_int_increasing) simp_all
  then have "(2::real) powi ulp_exponent (p * 100) / 2 \<le> 1 / 2 ^ 47"
    by (simp add: power_int_minus field_simps)
  with rd64_error [of "p * 100"] show ?thesis
    by (simp add: mul64_def)
qed

lemma mul64_range:
  assumes "0 \<le> p" and "p \<le> 1"
  shows "0 \<le> mul64 p 100 \<and> mul64 p 100 \<le> 100"
proof -
  have "0 \<le> p * 100" using assms(1) by simp
  then have lo: "0 \<le> rd64 (p * 100)" by (rule rd64_nonneg)
  have "p * 100 \<le> 100" using assms(2) by simp
  then have hi: "rd64 (p * 100) \<le> 100" by (rule rd64_le_100)
  from lo hi show ?thesis by (simp add: mul64_def)
qed

lemma Math_round_nearest:
  "real_of_int (Math_round x) \<le> x + 1 / 2 \<and> x + 1 / 2 < real_of_int (Math_round x) + 1"
  unfolding Math_round_def by linarith

lemma Math_round_nonneg: "0 \<le> x \<Longrightarrow> 0 \<le> Math_round x"
  by (simp add: Math_round_def)

lemma Math_round_le_100: "x \<le> 100 \<Longrightarrow> Math_round x \<le> 100"
  unfolding Math_round_def by linarith

text \<open>
  C8, as the code has it. For every progress fraction \<open>p\<close> between 0 and 1 the
  listener stores the integer nearest to the product of \<open>p\<close> and 100 as JavaScript
  computes it, in double precision, a tie going up: the stored integer \<open>v\<close> is the
  one with \<open>v \<le> x + 1/2 < v + 1\<close> for that product \<open>x\<close>, and \<open>x\<close> is within
  \<open>1 / 2 ^ 47\<close> of the exact product. The stored integer lies between 0 and 100.
\<close>

theorem onProgress_percentage:
  assumes "0 \<le> p" and "p \<le> 1"
  shows "real_of_int (progress (onProgress p s)) \<le> mul64 p 100 + 1 / 2
       \<and> mul64 p 100 + 1 / 2 < real_of_int (progress (onProgress p s)) + 1
       \<and> \<bar>mul64 p 100 - p * 100\<bar> \<le> 1 / 2 ^ 47
       \<and> 0 \<le> progress (onProgress p s)
       \<and> progress (onProgress p s) \<le> 100"
proof -
  from mul64_range [OF assms]
  have lo: "0 \<le> mul64 p 100" and hi: "mul64 p 100 \<le> 100" by simp_all
  have le: "Math_round (mul64 p 100) \<le> 100"
    using hi by (rule Math_round_le_100)
  have ge: "0 \<le> Math_round (mul64 p 100)"
    using lo by (rule Math_round_nonneg)
  have v: "progress (onProgress p s) = Math_round (mul64 p 100)"
    using le by (simp add: onProgress_def)
  show ?thesis
    unfolding v
    using Math_round_nearest [of "mul64 p 100"] mul64_error [OF assms] le ge by simp
qed

theorem onProgress_percentage_witness:
  "(0::real) \<le> 3 / 8 \<and> (3::real) / 8 \<le> 1
   \<and> mul64 (3 / 8) 100 = 75 / 2
   \<and> progress (onProgress (3 / 8) mounted) = 38
   \<and> mul64 (1 / 2 + 1 / 2 ^ 50) 100 = 50 + 12 / 2 ^ 47"
proof -
  have m: "mul64 (3 / 8) 100 = 75 / 2"
    by (simp add: mul64_def rd64_75_2)
  from onProgress_percentage [of "3 / 8" mounted]
  have "real_of_int (progress (onProgress (3 / 8) mounted)) \<le> 38"
    and "37 < real_of_int (progress (onProgress (3 / 8) mounted))"
    unfolding m by simp_all
  then have "progress (onProgress (3 / 8) mounted) = 38" by linarith
  with m mul64_tie show ?thesis by simp
qed

text \<open>
  C8 as stated fails when the product is taken exactly. The double nearest to 0.015 is
  a fraction between 0 and 1; its exact product with 100 is below one and a half and
  rounds to 1, while the product in double precision is one and a half exactly and the
  listener stores 2.
\<close>

theorem exact_product_counterexample:
  "0 \<le> near_0015 \<and> near_0015 \<le> 1
   \<and> rd64 (15 / 1000) = near_0015
   \<and> rd64 near_0015 = near_0015
   \<and> near_0015 * 100 < 3 / 2
   \<and> Math_round (near_0015 * 100) = 1
   \<and> mul64 near_0015 100 = 3 / 2
   \<and> progress (onProgress near_0015 mounted) = 2"
proof -
  have r: "0 \<le> near_0015 \<and> near_0015 \<le> 1 \<and> near_0015 * 100 < 3 / 2"
    by (simp add: near_0015_def)
  have e: "Math_round (near_0015 * 100) = 1"
    by (simp add: Math_round_def near_0015_def)
  have v: "progress (onProgress near_0015 mounted) = 2"
    by (simp add: onProgress_def mul64_near_0015 Math_round_def)
  from r e v near_0015_is_double mul64_near_0015 show ?thesis by simp
qed

text \<open>
  The upper bound holds for every fraction, within \<open>[0, 1]\<close> or not; there is no lower
  clamp, the lower bound above comes from \<open>0 \<le> p\<close>.
\<close>

lemma onProgress_upper: "progress (onProgress p s) \<le> 100"
  by (simp add: onProgress_def)

subsection \<open>Choosing no file\<close>

text \<open>
  C10. When the change event carries no file (the list is absent or empty),
  \<open>handleUpload\<close> changes nothing: the preview handle, the source image, the output
  handle, the error message and everything else are as before, and the render that
  follows revokes nothing.
\<close>

theorem handleUpload_empty:
  "handleUpload None s = s \<and> handleUpload (Some []) s = s
   \<and> rerender s (handleUpload None s) = s \<and> rerender s (handleUpload (Some []) s) = s"
  by (simp add: handleUpload_def first_file_def rerender_def)

subsection \<open>Starting a conversion when not ready\<close>

text \<open>
  C5. When no source image is selected or the engine has not loaded,
  \<open>convertToVideo\<close> returns at once: no state variable changes (so no error banner
  appears), and the engine, with its log of calls, is untouched (so no run is invoked).
\<close>

theorem convertToVideo_not_ready:
  "image_file s = None \<or> \<not> loaded s \<Longrightarrow> convertToVideo ev s = s"
  by (auto simp: convertToVideo_def split: option.splits)

theorem convertToVideo_not_ready_witness:
  "(image_file mounted = None \<or> \<not> loaded mounted)
   \<and> convertToVideo converting_env mounted = mounted"
proof -
  have h: "image_file mounted = None \<or> \<not> loaded mounted"
    by (simp add: mounted_def)
  from h convertToVideo_not_ready [OF h] show ?thesis by simp
qed

subsection \<open>A conversion in which the run fails, or succeeds\<close>

lemma foldl_onProgress:
  "foldl (\<lambda>s' p. onProgress p s') s ps =
     (if ps = [] then s else s\<lparr>progress := min 100 (Math_round (mul64 (last ps) 100))\<rparr>)"
  by (induction ps rule: rev_induct) (auto simp: onProgress_def)

lemma inputPath_neq_outputPath: "inputPath nm \<noteq> outputPath"
  by (simp add: inputPath_def outputPath_def)

lemma convertToVideo_started:
  assumes "image_file s = Some img" and "loaded s" and "ffmpegRef s = Some e"
  shows "convertToVideo ev s =
     (case try_body ev img e (s\<lparr>loading := True, progress := 0, error := None\<rparr>) of
        (None, e', s2) \<Rightarrow> s2\<lparr>loading := False, ffmpegRef := Some e'\<rparr>
      | (Some err, e', s2) \<Rightarrow>
          s2\<lparr>error := Some (''Conversion failed ('' @ errMsg err @
                  ''). Please try again with a different image.''),
              loading := False, ffmpegRef := Some e'\<rparr>)"
  using assms by (simp add: convertToVideo_def Let_def split: prod.splits option.splits)

lemma try_body_run_throws:
  assumes "fetchFile ev img = Inr d"
    and "settled (run ev (args (name img)) ((files e)(inputPath (name img) \<mapsto> d))) = Inl err"
  shows "try_body ev img e s =
     (Some err,
      \<lparr>files = files_after (run ev (args (name img)) ((files e)(inputPath (name img) \<mapsto> d))),
       calls = calls e @ [WriteFile (inputPath (name img)), Exec (args (name img))]\<rparr>,
      foldl (\<lambda>s' p. onProgress p s') (revokeIfSet (videoUrl s) s)
        (emitted (run ev (args (name img)) ((files e)(inputPath (name img) \<mapsto> d)))))"
  using assms by (simp add: try_body_def writeFile_def exec_def Let_def)

text \<open>
  The component after a conversion in which \<open>exec\<close> rejected, whatever the output
  slot held: the slot is as it was, and a handle it held has been revoked at line 82.
\<close>

lemma run_throws_state:
  assumes "image_file s = Some img" and "loaded s" and "ffmpegRef s = Some e"
    and "fetchFile ev img = Inr d"
    and "r = run ev (args (name img)) ((files e)(inputPath (name img) \<mapsto> d))"
    and "settled r = Inl err"
  shows "convertToVideo ev s =
     (foldl (\<lambda>s' p. onProgress p s')
        (revokeIfSet (videoUrl s) (s\<lparr>loading := True, progress := 0, error := None\<rparr>))
        (emitted r))
       \<lparr>error := Some (''Conversion failed ('' @ errMsg err @
                  ''). Please try again with a different image.''),
        loading := False,
        ffmpegRef := Some \<lparr>files = files_after r,
           calls = calls e @ [WriteFile (inputPath (name img)), Exec (args (name img))]\<rparr>\<rparr>"
proof -
  let ?s1 = "s\<lparr>loading := True, progress := 0, error := None\<rparr>"
  have tb: "try_body ev img e ?s1 =
     (Some err,
      \<lparr>files = files_after r,
       calls = calls e @ [WriteFile (inputPath (name img)), Exec (args (name img))]\<rparr>,
      foldl (\<lambda>s' p. onProgress p s') (revokeIfSet (videoUrl ?s1) ?s1) (emitted r))"
    using assms(4,5,6) try_body_run_throws [of ev img d e err ?s1] by simp
  show ?thesis
    using assms(1,2,3) tb by (simp add: convertToVideo_started)
qed

lemma run_throws_output_slot:
  assumes "image_file s = Some img" and "loaded s" and "ffmpegRef s = Some e"
    and "fetchFile ev img = Inr d"
    and "settled (run ev (args (name img)) ((files e)(inputPath (name img) \<mapsto> d))) = Inl err"
  shows "videoUrl (convertToVideo ev s) = videoUrl s
     \<and> (\<forall>u. videoUrl s = Some u \<longrightarrow> u \<notin> objectURLs (convertToVideo ev s))
     \<and> objectURLs (convertToVideo ev s) \<subseteq> objectURLs s"
  unfolding run_throws_state [OF assms(1,2,3,4) refl assms(5)] foldl_onProgress
  by (cases "videoUrl s") (simp_all add: revokeIfSet_def revokeObjectURL_def)

text \<open>
  C6, as the code has it. For every conversion that is started while the output slot
  is empty (the Create Video button exists only then) and in which \<open>exec\<close> rejects:
  the error message is the fixed prefix, the message of the value thrown and the fixed
  suffix; \<open>loading\<close> is false again; the source image is kept; no output handle is
  retained, the slot is still empty and no object URL has been created. The progress
  value was set to 0 when the conversion started and is afterwards the last percentage
  the run forwarded before it rejected, and 0 when it forwarded none.
\<close>

theorem convertToVideo_run_throws:
  assumes "image_file s = Some img" and "loaded s" and "ffmpegRef s = Some e"
    and "videoUrl s = None"
    and "fetchFile ev img = Inr d"
    and "r = run ev (args (name img)) ((files e)(inputPath (name img) \<mapsto> d))"
    and "settled r = Inl err"
    and "s' = convertToVideo ev s"
  shows "error s' = Some (''Conversion failed ('' @ errMsg err @
                     ''). Please try again with a different image.'')
     \<and> loading s' = False
     \<and> image_file s' = Some img
     \<and> videoUrl s' = None
     \<and> objectURLs s' = objectURLs s
     \<and> progress s' =
         (if emitted r = [] then 0 else progress (onProgress (last (emitted r)) s))"
  unfolding assms(8) run_throws_state [OF assms(1,2,3,5,6,7)] foldl_onProgress
  using assms(1,4) by (simp add: revokeIfSet_def onProgress_def)

lemma inputPath_photo: "inputPath ''photo.jpg'' = ''input.jpg''"
  by code_simp

lemma ready_eq:
  "ready =
     \<lparr>loaded = True, loading = False, image_file = Some photo, previewUrl = Some 0,
      videoUrl = None, error = None, progress = 0,
      ffmpegRef = Some \<lparr>files = Map.empty, calls = []\<rparr>,
      objectURLs = {0}, nextURL = 1\<rparr>"
  by (simp add: ready_def load_def mounted_def handleUpload_def first_file_def revokeIfSet_def
      createObjectURL_def rerender_def)

lemma aborted_eq:
  "convertToVideo aborting_env ready =
     \<lparr>loaded = True, loading = False, image_file = Some photo, previewUrl = Some 0,
      videoUrl = None,
      error = Some ''Conversion failed (Aborted()). Please try again with a different image.'',
      progress = 38,
      ffmpegRef = Some \<lparr>files = [''input.jpg'' \<mapsto> [255, 216, 255, 224]],
                         calls = [WriteFile ''input.jpg'', Exec (args ''photo.jpg'')]\<rparr>,
      objectURLs = {0}, nextURL = 1\<rparr>"
proof -
  have n: "name photo = ''photo.jpg''" by (simp add: photo_def)
  have r: "Math_round (75 / 2) = 38" by (simp add: Math_round_def)
  show ?thesis
    unfolding ready_eq
    by (simp add: convertToVideo_def try_body_def writeFile_def exec_def aborting_env_def
        revokeIfSet_def onProgress_def mul64_def rd64_75_2 n inputPath_photo r photo_def)
qed

lemma succeeded_eq:
  "succeeded =
     \<lparr>loaded = True, loading = False, image_file = Some photo, previewUrl = Some 0,
      videoUrl = Some 1, error = None, progress = 100,
      ffmpegRef = Some \<lparr>files = Map.empty,
                         calls = [WriteFile ''input.jpg'', Exec (args ''photo.jpg''),
                                  ReadFile ''output.mp4'', DeleteFile ''input.jpg'',
                                  DeleteFile ''output.mp4'']\<rparr>,
      objectURLs = {0, 1}, nextURL = 2\<rparr>"
proof -
  have n: "name photo = ''photo.jpg''" by (simp add: photo_def)
  have r: "Math_round 100 = 100" by (simp add: Math_round_def)
  have m: "[''input.jpg'' \<mapsto> content photo, ''output.mp4'' \<mapsto> [0, 0, 0, 24::nat]]
             (''input.jpg'' := None, ''output.mp4'' := None) = Map.empty"
    by (rule ext) simp
  show ?thesis
    unfolding succeeded_def click_createVideo_def createVideo_disabled_def ready_eq
    by (simp add: convertToVideo_def try_body_def writeFile_def exec_def readFile_def
        cleanup_def deleteFile_def createObjectURL_def converting_env_def
        revokeIfSet_def onProgress_def mul64_def rd64_50 rd64_100 n inputPath_photo r
        outputPath_def m insert_commute)
qed

theorem convertToVideo_run_throws_witness:
  "error (convertToVideo aborting_env ready) =
     Some ''Conversion failed (Aborted()). Please try again with a different image.''
   \<and> loading (convertToVideo aborting_env ready) = False
   \<and> image_file (convertToVideo aborting_env ready) = Some photo
   \<and> videoUrl (convertToVideo aborting_env ready) = None
   \<and> objectURLs (convertToVideo aborting_env ready) = {0}
   \<and> progress (convertToVideo aborting_env ready) = 38"
proof -
  let ?e = "\<lparr>files = Map.empty, calls = []\<rparr>"
  have h1: "image_file ready = Some photo" by (simp add: ready_eq)
  have h2: "loaded ready" by (simp add: ready_eq)
  have h3: "ffmpegRef ready = Some ?e" by (simp add: ready_eq)
  have h4: "videoUrl ready = None" by (simp add: ready_eq)
  have f: "fetchFile aborting_env photo = Inr (content photo)"
    by (simp add: aborting_env_def)
  have t: "settled (run aborting_env (args (name photo)) fs) = Inl (ErrorObject ''Aborted()'')"
    for fs by (simp add: aborting_env_def)
  have m: "emitted (run aborting_env (args (name photo)) fs) = [3 / 8]"
    for fs by (simp add: aborting_env_def)
  have p: "mul64 (3 / 8) 100 = 75 / 2" by (simp add: mul64_def rd64_75_2)
  have v: "Math_round (75 / 2) = 38" by (simp add: Math_round_def)
  from convertToVideo_run_throws [OF h1 h2 h3 h4 f refl t refl]
  show ?thesis
    by (simp add: m p v ready_eq onProgress_def)
qed

text \<open>
  C6 as stated fails on the progress value: a run that reports three eighths and then
  rejects leaves 38, not 0.
\<close>

theorem run_throws_progress_counterexample:
  "settled (run aborting_env (args ''photo.jpg'') [''input.jpg'' \<mapsto> content photo]) =
     Inl (ErrorObject ''Aborted()'')
   \<and> error (convertToVideo aborting_env ready) =
     Some ''Conversion failed (Aborted()). Please try again with a different image.''
   \<and> progress (convertToVideo aborting_env ready) = 38"
  unfolding aborted_eq by (simp add: aborting_env_def)


text \<open>
  Where the cleanup of lines 111 to 116 runs. For a conversion that has passed the guard
  of line 67 and whose input was fetched: when \<open>exec\<close> resolves and both the output
  file and the input file exist afterwards, the input path and then the output path are
  deleted before the call returns, and the virtual filesystem contains neither. When
  \<open>exec\<close> rejects, or resolves without an output file so that the read rejects, no
  deletion is attempted and the filesystem stays as the run left it.
\<close>

lemma convertToVideo_cleanup:
  assumes "image_file s = Some img" and "loaded s" and "ffmpegRef s = Some e"
    and "fetchFile ev img = Inr d"
    and "r = run ev (args (name img)) ((files e)(inputPath (name img) \<mapsto> d))"
    and "s' = convertToVideo ev s"
  shows
    "(settled r = Inr code \<and> files_after r outputPath \<noteq> None
        \<and> files_after r (inputPath (name img)) \<noteq> None \<longrightarrow>
      engine_calls s' =
        calls e @ [WriteFile (inputPath (name img)), Exec (args (name img)),
                   ReadFile outputPath, DeleteFile (inputPath (name img)),
                   DeleteFile outputPath]
      \<and> engine_files s' (inputPath (name img)) = None
      \<and> engine_files s' outputPath = None)
   \<and> (settled r = Inl err \<longrightarrow>
      engine_calls s' = calls e @ [WriteFile (inputPath (name img)), Exec (args (name img))]
      \<and> engine_files s' = files_after r)
   \<and> (settled r = Inr code \<and> files_after r outputPath = None \<longrightarrow>
      engine_calls s' =
        calls e @ [WriteFile (inputPath (name img)), Exec (args (name img)),
                   ReadFile outputPath]
      \<and> engine_files s' = files_after r)"
proof (intro conjI impI)
  note st = convertToVideo_started [OF assms(1,2,3), of ev, folded assms(6)]
  note defs = try_body_def writeFile_def exec_def readFile_def cleanup_def deleteFile_def
    createObjectURL_def engine_calls_def engine_files_def Let_def
  {
    assume ok: "settled r = Inr code \<and> files_after r outputPath \<noteq> None
        \<and> files_after r (inputPath (name img)) \<noteq> None"
    then obtain out d' where o: "files_after r outputPath = Some out"
      and i: "files_after r (inputPath (name img)) = Some d'"
      by auto
    have s': "ffmpegRef s' = Some
       \<lparr>files = (files_after r)(inputPath (name img) := None, outputPath := None),
        calls = calls e @ [WriteFile (inputPath (name img)), Exec (args (name img)),
                   ReadFile outputPath, DeleteFile (inputPath (name img)),
                   DeleteFile outputPath]\<rparr>"
      unfolding st using ok o i assms(4) assms(5) [symmetric]
      by (simp add: defs inputPath_neq_outputPath [symmetric] split: prod.splits)
    show "engine_calls s' =
        calls e @ [WriteFile (inputPath (name img)), Exec (args (name img)),
                   ReadFile outputPath, DeleteFile (inputPath (name img)),
                   DeleteFile outputPath]"
      by (simp add: engine_calls_def s')
    show "engine_files s' (inputPath (name img)) = None"
      by (simp add: engine_files_def s' inputPath_neq_outputPath)
    show "engine_files s' outputPath = None"
      by (simp add: engine_files_def s')
  }
  {
    assume thr: "settled r = Inl err"
    have s': "ffmpegRef s' = Some
       \<lparr>files = files_after r,
        calls = calls e @ [WriteFile (inputPath (name img)), Exec (args (name img))]\<rparr>"
      unfolding st using thr assms(4) assms(5) [symmetric]
      by (simp add: defs split: prod.splits)
    show "engine_calls s' =
        calls e @ [WriteFile (inputPath (name img)), Exec (args (name img))]"
      by (simp add: engine_calls_def s')
    show "engine_files s' = files_after r"
      by (rule ext) (simp add: engine_files_def s')
  }
  {
    assume nof: "settled r = Inr code \<and> files_after r outputPath = None"
    have s': "ffmpegRef s' = Some
       \<lparr>files = files_after r,
        calls = calls e @ [WriteFile (inputPath (name img)), Exec (args (name img)),
                   ReadFile outputPath]\<rparr>"
      unfolding st using nof assms(4) assms(5) [symmetric]
      by (simp add: defs split: prod.splits)
    show "engine_calls s' =
        calls e @ [WriteFile (inputPath (name img)), Exec (args (name img)),
                   ReadFile outputPath]"
      by (simp add: engine_calls_def s')
    show "engine_files s' = files_after r"
      by (rule ext) (simp add: engine_files_def s')
  }
qed


lemma convertToVideo_cleanup_example:
  "engine_calls (convertToVideo converting_env ready) =
     [WriteFile ''input.jpg'', Exec (args ''photo.jpg''), ReadFile ''output.mp4'',
      DeleteFile ''input.jpg'', DeleteFile ''output.mp4'']
   \<and> engine_files (convertToVideo converting_env ready) ''input.jpg'' = None
   \<and> engine_files (convertToVideo converting_env ready) ''output.mp4'' = None
   \<and> engine_calls (convertToVideo aborting_env ready) =
     [WriteFile ''input.jpg'', Exec (args ''photo.jpg'')]
   \<and> engine_calls (convertToVideo rejecting_env ready) =
     [WriteFile ''input.jpg'', Exec (args ''photo.jpg''), ReadFile ''output.mp4'']"
proof -
  let ?e = "\<lparr>files = Map.empty, calls = []\<rparr>"
  have h1: "image_file ready = Some photo" by (simp add: ready_eq)
  have h2: "loaded ready" by (simp add: ready_eq)
  have h3: "ffmpegRef ready = Some ?e" by (simp add: ready_eq)
  have n: "inputPath (name photo) = ''input.jpg''"
    by (simp add: photo_def inputPath_photo)
  have a: "args (name photo) = args ''photo.jpg''" by (simp add: photo_def)
  have f1: "fetchFile converting_env photo = Inr (content photo)"
    by (simp add: converting_env_def)
  have f2: "fetchFile aborting_env photo = Inr (content photo)"
    by (simp add: aborting_env_def)
  have f3: "fetchFile rejecting_env photo = Inr (content photo)"
    by (simp add: rejecting_env_def)
  have r1: "settled (run converting_env (args (name photo))
               ((files ?e)(inputPath (name photo) \<mapsto> content photo))) = Inr 0
      \<and> files_after (run converting_env (args (name photo))
               ((files ?e)(inputPath (name photo) \<mapsto> content photo))) outputPath \<noteq> None
      \<and> files_after (run converting_env (args (name photo))
               ((files ?e)(inputPath (name photo) \<mapsto> content photo)))
              (inputPath (name photo)) \<noteq> None"
    by (simp add: converting_env_def inputPath_neq_outputPath)
  have r2: "settled (run aborting_env (args (name photo))
               ((files ?e)(inputPath (name photo) \<mapsto> content photo))) =
             Inl (ErrorObject ''Aborted()'')"
    by (simp add: aborting_env_def)
  have r3: "settled (run rejecting_env (args (name photo))
               ((files ?e)(inputPath (name photo) \<mapsto> content photo))) = Inr 1
      \<and> files_after (run rejecting_env (args (name photo))
               ((files ?e)(inputPath (name photo) \<mapsto> content photo))) outputPath = None"
    using inputPath_neq_outputPath [of "name photo"]
    by (simp add: rejecting_env_def)
  from convertToVideo_cleanup [OF h1 h2 h3 f1 refl refl, where code = 0, THEN conjunct1] r1
  have c1: "engine_calls (convertToVideo converting_env ready) =
     [WriteFile ''input.jpg'', Exec (args ''photo.jpg''), ReadFile ''output.mp4'',
      DeleteFile ''input.jpg'', DeleteFile ''output.mp4'']
   \<and> engine_files (convertToVideo converting_env ready) ''input.jpg'' = None
   \<and> engine_files (convertToVideo converting_env ready) ''output.mp4'' = None"
    by (simp add: n a outputPath_def)
  from convertToVideo_cleanup [OF h1 h2 h3 f2 refl refl,
      where err = "ErrorObject ''Aborted()''", THEN conjunct2, THEN conjunct1] r2
  have c2: "engine_calls (convertToVideo aborting_env ready) =
     [WriteFile ''input.jpg'', Exec (args ''photo.jpg'')]"
    by (simp add: n a)
  from convertToVideo_cleanup [OF h1 h2 h3 f3 refl refl, where code = 1,
      THEN conjunct2, THEN conjunct2] r3
  have c3: "engine_calls (convertToVideo rejecting_env ready) =
     [WriteFile ''input.jpg'', Exec (args ''photo.jpg''), ReadFile ''output.mp4'']"
    by (simp add: n a outputPath_def)
  from c1 c2 c3 show ?thesis by simp
qed

lemma rejected_eq:
  "convertToVideo rejecting_env ready =
     \<lparr>loaded = True, loading = False, image_file = Some photo, previewUrl = Some 0,
      videoUrl = None,
      error = Some (''Conversion failed (ErrnoError: FS error). '' @
                    ''Please try again with a different image.''),
      progress = 0,
      ffmpegRef = Some \<lparr>files = [''input.jpg'' \<mapsto> [255, 216, 255, 224]],
                         calls = [WriteFile ''input.jpg'', Exec (args ''photo.jpg''),
                                  ReadFile ''output.mp4'']\<rparr>,
      objectURLs = {0}, nextURL = 1\<rparr>"
proof -
  have n: "name photo = ''photo.jpg''" by (simp add: photo_def)
  show ?thesis
    unfolding ready_eq
    by (simp add: convertToVideo_def try_body_def writeFile_def exec_def readFile_def
        rejecting_env_def revokeIfSet_def n inputPath_photo photo_def outputPath_def)
qed

text \<open>
  C1. The claim asks that both paths be deleted on every way out of a conversion. The
  code deletes them only at the end of the \<open>try\<close> block. When \<open>exec\<close> rejects, the
  input file written at line 85 is still in the virtual filesystem after the call and
  neither deletion was attempted; the same holds when \<open>exec\<close> resolves without having
  written an output file, so that the read at line 106 rejects.
\<close>

theorem cleanup_skipped_on_failure:
  "engine_files (convertToVideo aborting_env ready) (inputPath (name photo)) =
     Some (content photo)
   \<and> DeleteFile (inputPath (name photo)) \<notin> set (engine_calls (convertToVideo aborting_env ready))
   \<and> DeleteFile outputPath \<notin> set (engine_calls (convertToVideo aborting_env ready))
   \<and> engine_files (convertToVideo rejecting_env ready) (inputPath (name photo)) =
     Some (content photo)
   \<and> DeleteFile (inputPath (name photo)) \<notin> set (engine_calls (convertToVideo rejecting_env ready))
   \<and> DeleteFile outputPath \<notin> set (engine_calls (convertToVideo rejecting_env ready))"
  unfolding aborted_eq rejected_eq
  by (simp add: engine_files_def engine_calls_def photo_def inputPath_photo)

subsection \<open>Object URLs\<close>

text \<open>
  Neither New Project nor the choice of a new file revokes the output handle: when it is
  live before and is not the URL about to be handed out, it is live after, also after
  the render that follows.
\<close>

lemma newProject_keeps_output_url:
  assumes "videoUrl s = Some u" and "u \<in> objectURLs s" and "previewUrl s \<noteq> Some u"
  shows "u \<in> objectURLs (rerender s (newProject s))
         \<and> videoUrl (rerender s (newProject s)) = None"
  using assms
  by (cases "previewUrl s")
     (simp_all add: newProject_def rerender_def revokeIfSet_def revokeObjectURL_def)

lemma handleUpload_keeps_output_url:
  assumes "videoUrl s = Some u" and "u \<in> objectURLs s" and "previewUrl s \<noteq> Some u"
  shows "u \<in> objectURLs (rerender s (handleUpload (Some (f # fs)) s))
         \<and> videoUrl (rerender s (handleUpload (Some (f # fs)) s)) = None"
  using assms
  by (cases "previewUrl s")
     (simp_all add: handleUpload_def first_file_def rerender_def revokeIfSet_def
        revokeObjectURL_def createObjectURL_def)

text \<open>
  C2. On the Success screen the preview handle is URL 0 and the output handle is URL 1.
  New Project empties both slots and revokes only URL 0: URL 1 stays live with nothing
  referring to it. Choosing a new file does the same to the output handle. The only
  revocation of \<open>videoUrl\<close> in the page is line 82.
\<close>

theorem output_handle_leak:
  "previewUrl succeeded = Some 0 \<and> videoUrl succeeded = Some 1
   \<and> objectURLs succeeded = {0, 1}
   \<and> videoUrl (rerender succeeded (newProject succeeded)) = None
   \<and> objectURLs (rerender succeeded (newProject succeeded)) = {1}
   \<and> videoUrl (rerender succeeded (handleUpload (Some [photo]) succeeded)) = None
   \<and> previewUrl (rerender succeeded (handleUpload (Some [photo]) succeeded)) = Some 2
   \<and> objectURLs (rerender succeeded (handleUpload (Some [photo]) succeeded)) = {1, 2}"
  unfolding succeeded_eq
  by (simp add: newProject_def handleUpload_def first_file_def rerender_def revokeIfSet_def
      revokeObjectURL_def createObjectURL_def insert_commute)

subsection \<open>A second conversion\<close>

text \<open>
  While a conversion is suspended in \<open>exec\<close> the page shows \<open>loading\<close> as true, and
  the calls made up to then are the first calls of the whole conversion.
\<close>

lemma pending_exec_loading: "pending_exec ev s = Some s1 \<Longrightarrow> loading s1"
  by (auto simp: pending_exec_def Let_def writeFile_def revokeIfSet_def revokeObjectURL_def
      split: option.splits if_splits sum.splits)

lemma pending_exec_prefix:
  "pending_exec ev s = Some s1 \<Longrightarrow>
     \<exists>rest. engine_calls (convertToVideo ev s) = engine_calls s1 @ rest"
  by (auto simp: pending_exec_def convertToVideo_def try_body_def exec_def readFile_def
      cleanup_def deleteFile_def createObjectURL_def Let_def writeFile_def engine_calls_def
      split: option.splits if_splits sum.splits prod.splits)

lemma pending_ready: "pending_exec converting_env ready = Some in_flight"
  unfolding in_flight_def ready_eq
  by (simp add: pending_exec_def writeFile_def converting_env_def revokeIfSet_def photo_def
      inputPath_photo)

text \<open>
  C3, as the code has it. While the page shows \<open>loading\<close> as true, as it does while a
  first conversion is in flight, the Create Video button is disabled: a click on it is
  not delivered to \<open>convertToVideo\<close>, changes no state and adds no call, so no run, to
  the engine's log.
\<close>

theorem click_createVideo_while_loading:
  "loading s \<Longrightarrow>
   click_createVideo ev s = s \<and> engine_calls (click_createVideo ev s) = engine_calls s"
  by (simp add: click_createVideo_def createVideo_disabled_def)

theorem click_createVideo_while_loading_witness:
  "pending_exec converting_env ready = Some in_flight
   \<and> loading in_flight
   \<and> click_createVideo converting_env in_flight = in_flight
   \<and> engine_calls (click_createVideo converting_env in_flight) =
       [WriteFile ''input.jpg'', Exec (args ''photo.jpg'')]"
proof -
  have l: "loading in_flight"
    using pending_ready by (rule pending_exec_loading)
  have c: "engine_calls in_flight = [WriteFile ''input.jpg'', Exec (args ''photo.jpg'')]"
    by (simp add: in_flight_def engine_calls_def)
  from l c pending_ready click_createVideo_while_loading [OF l, of converting_env]
  show ?thesis by simp
qed

text \<open>
  C3 as stated fails for \<open>convertToVideo\<close> itself, which does not read \<open>loading\<close>:
  called while a first conversion is inside \<open>exec\<close>, it writes the input again and
  invokes \<open>exec\<close> a second time.
\<close>

theorem second_call_runs_counterexample:
  "loading in_flight
   \<and> engine_calls in_flight = [WriteFile ''input.jpg'', Exec (args ''photo.jpg'')]
   \<and> engine_calls (convertToVideo converting_env in_flight) =
       [WriteFile ''input.jpg'', Exec (args ''photo.jpg''),
        WriteFile ''input.jpg'', Exec (args ''photo.jpg''), ReadFile ''output.mp4'',
        DeleteFile ''input.jpg'', DeleteFile ''output.mp4'']"
proof -
  have n: "name photo = ''photo.jpg''" by (simp add: photo_def)
  show ?thesis
    unfolding in_flight_def ready_eq
    by (simp add: convertToVideo_def try_body_def writeFile_def exec_def readFile_def
        cleanup_def deleteFile_def createObjectURL_def converting_env_def engine_calls_def
        revokeIfSet_def onProgress_def mul64_def rd64_50 rd64_100 n inputPath_photo
        outputPath_def)
qed

end
